theory Spec2Isabelle
  imports Main
begin

section \<open>Data model\<close>

text \<open>
  The rows the views and query helpers of \<^verbatim>\<open>blogicum\<close> work on. The model
  classes themselves live in \<^verbatim>\<open>blog/models.py\<close>; the fields below are the ones
  \<^verbatim>\<open>core/utils.py\<close> and \<^verbatim>\<open>blog/views.py\<close> read. A post row is kept together with
  the related rows its foreign keys point to, the way \<^verbatim>\<open>select_related\<close> loads them.
  Timestamps are integers (ticks of the clock that \<^verbatim>\<open>timezone.now()\<close> reads).
\<close>

record user =
  user_pk :: nat
  username :: string
  email :: string

record category =
  category_pk :: nat
  slug :: string
  cat_is_published :: bool

text \<open>
  Modelled from the spec: the declaration of \<^verbatim>\<open>Post\<close> (\<^verbatim>\<open>blog/models.py\<close>) is needed
  for the type of \<^verbatim>\<open>category\<close>. The spec's data model gives every post a category that
  "may itself be unpublished" and leaves "no category" unmodelled; the views read
  \<^verbatim>\<open>post.category.is_published\<close> without a guard. The field is a category row.
\<close>

record post =
  post_pk :: nat
  author :: user
  category :: category
  title :: string
  pub_date :: int
  is_published :: bool

record comment =
  comment_pk :: nat
  comment_author :: user
  comment_post :: nat
  comment_body :: string

text \<open>
  The stored state: the three tables and, for the two tables the views insert into, the
  last primary key the database's key sequence has issued. A key is issued once: deleting
  a row does not give its key back.
\<close>

record db =
  users :: "user list"
  posts :: "post list"
  comments :: "comment list"
  post_pk_seq :: nat
  comment_pk_seq :: nat

text \<open>
  \<^verbatim>\<open>request.user\<close> is either Django's \<^verbatim>\<open>AnonymousUser\<close> or a row of the user table.
\<close>

datatype viewer = AnonymousUser | LoggedIn user

text \<open>
  \<^verbatim>\<open>post.author == request.user\<close>: two model instances are equal when their primary
  keys are; a model instance never equals \<^verbatim>\<open>AnonymousUser\<close>.
\<close>

fun user_eq :: "user \<Rightarrow> viewer \<Rightarrow> bool" where
  "user_eq a AnonymousUser = False"
| "user_eq a (LoggedIn u) = (user_pk a = user_pk u)"

fun is_authenticated :: "viewer \<Rightarrow> bool" where
  "is_authenticated AnonymousUser = False"
| "is_authenticated (LoggedIn u) = True"

datatype error =
    Http404
  | MultipleObjectsReturned
  | PageNotAnInteger
  | EmptyPage
  | ZeroDivisionError
  | DatabaseError
  | ValueError

section \<open>core/utils.py\<close>

subsection \<open>Query builders\<close>

text \<open>
  \<^verbatim>\<open>Count("comments")\<close>: the number of comment rows whose foreign key is the post.
\<close>

definition comment_count :: "db \<Rightarrow> post \<Rightarrow> nat" where
  "comment_count d p = length (filter (\<lambda>c. comment_post c = post_pk p) (comments d))"

text \<open>
  \<^verbatim>\<open>post_all_query\<close>: every post, annotated with its comment count, ordered by
  \<^verbatim>\<open>-pub_date\<close>. An annotated post is the pair of the row and the count. Rows with equal
  \<^verbatim>\<open>pub_date\<close> keep their table order here (the database leaves that order open).
\<close>

definition post_all_query :: "db \<Rightarrow> (post \<times> nat) list" where
  "post_all_query d =
     sort_key (\<lambda>(p, n). - pub_date p) (map (\<lambda>p. (p, comment_count d p)) (posts d))"

text \<open>
  \<^verbatim>\<open>post_published_query\<close>: the three keyword filters on \<^verbatim>\<open>post_all_query()\<close>, with
  \<^verbatim>\<open>now\<close> the value of \<^verbatim>\<open>timezone.now()\<close>.
\<close>

definition post_published_query :: "db \<Rightarrow> int \<Rightarrow> (post \<times> nat) list" where
  "post_published_query d now =
     filter (\<lambda>(p, n). pub_date p \<le> now \<and> is_published p = True
                        \<and> cat_is_published (category p) = True)
       (post_all_query d)"

text \<open>
  \<^verbatim>\<open>get_object_or_404\<close> on an already filtered queryset: \<^verbatim>\<open>.get()\<close> returns the only row,
  \<^verbatim>\<open>DoesNotExist\<close> becomes \<^verbatim>\<open>Http404\<close>, and \<^verbatim>\<open>MultipleObjectsReturned\<close> is not caught.
\<close>

fun get_object_or_404 :: "'a list \<Rightarrow> error + 'a" where
  "get_object_or_404 [] = Inl Http404"
| "get_object_or_404 [x] = Inr x"
| "get_object_or_404 (x # y # zs) = Inl MultipleObjectsReturned"

text \<open>URL keyword arguments of a route (\<^verbatim>\<open>self.kwargs\<close>).\<close>

record kwargs =
  post_id :: nat
  comment_id :: nat
  kw_username :: string

definition get_post_data :: "db \<Rightarrow> int \<Rightarrow> kwargs \<Rightarrow> error + post" where
  "get_post_data d now post_data =
     get_object_or_404
       (filter (\<lambda>p. post_pk p = post_id post_data \<and> pub_date p \<le> now
                     \<and> is_published p = True \<and> cat_is_published (category p) = True)
          (posts d))"

subsection \<open>Pagination\<close>

text \<open>
  \<^verbatim>\<open>request.GET.get('page')\<close> as \<^verbatim>\<open>int()\<close> reads it in Django's
  \<^verbatim>\<open>Paginator.validate_number\<close>: the parameter is absent (\<^verbatim>\<open>None\<close>, a TypeError), a
  string that is no integer (a ValueError), or a string that reads as the integer \<open>n\<close>.
\<close>

datatype page_arg = NoPage | NotAnInteger | IntPage int

datatype http_method = GET | POST

datatype route = Login | PostDetail nat | Profile string

text \<open>
  A request: the viewer, the method, the \<^verbatim>\<open>page\<close> query parameter, the submitted form
  as the form class of the view reads it (the form classes are declared in
  \<^verbatim>\<open>blog/forms.py\<close>; each view says below what it takes from its form), and
  \<^verbatim>\<open>build_absolute_uri\<close> on the URLs that \<^verbatim>\<open>reverse\<close> returns.
\<close>

record 'f request =
  req_user :: viewer
  req_method :: http_method
  req_page :: page_arg
  req_form :: 'f
  build_absolute_uri :: "route \<Rightarrow> string"

record 'a page =
  object_list :: "'a list"
  number :: int

text \<open>
  Django's \<^verbatim>\<open>Paginator\<close> with its defaults \<^verbatim>\<open>orphans=0\<close> and
  \<^verbatim>\<open>allow_empty_first_page=True\<close>. \<^verbatim>\<open>num_pages\<close> is
  \<^verbatim>\<open>ceil(hits / per_page)\<close> with \<^verbatim>\<open>hits = max(1, count - orphans)\<close>; on integers
  with a positive divisor the ceiling of the quotient is
  \<open>(hits + per_page - 1) div per_page\<close>. A \<^verbatim>\<open>per_page\<close> of zero raises
  \<^verbatim>\<open>ZeroDivisionError\<close>; every call of this repository passes 10.
\<close>

definition num_pages :: "'a list \<Rightarrow> nat \<Rightarrow> error + int" where
  "num_pages objs per_page =
     (let hits = max 1 (int (length objs) - 0) in
      if per_page = 0 then Inl ZeroDivisionError
      else Inr ((hits + int per_page - 1) div int per_page))"

definition validate_number :: "'a list \<Rightarrow> nat \<Rightarrow> page_arg \<Rightarrow> error + int" where
  "validate_number objs per_page n =
     (case n of
        NoPage \<Rightarrow> Inl PageNotAnInteger
      | NotAnInteger \<Rightarrow> Inl PageNotAnInteger
      | IntPage k \<Rightarrow>
          if k < 1 then Inl EmptyPage
          else (case num_pages objs per_page of
                  Inl e \<Rightarrow> Inl e
                | Inr np \<Rightarrow> if k > np then Inl EmptyPage else Inr k))"

text \<open>
  \<^verbatim>\<open>Paginator.page\<close>: validates the number again and slices
  \<^verbatim>\<open>object_list[bottom:top]\<close>.
\<close>

definition page :: "'a list \<Rightarrow> nat \<Rightarrow> int \<Rightarrow> error + 'a page" where
  "page objs per_page n =
     (case validate_number objs per_page (IntPage n) of
        Inl e \<Rightarrow> Inl e
      | Inr k \<Rightarrow>
          let bottom = (k - 1) * int per_page;
              top = bottom + int per_page;
              top = (if top + 0 \<ge> int (length objs) then int (length objs) else top)
          in Inr \<lparr>object_list = take (nat (top - bottom)) (drop (nat bottom) objs),
                  number = k\<rparr>)"

text \<open>
  \<^verbatim>\<open>Paginator.get_page\<close>: \<^verbatim>\<open>PageNotAnInteger\<close> falls back to page 1,
  \<^verbatim>\<open>EmptyPage\<close> to page \<^verbatim>\<open>num_pages\<close>.
\<close>

definition get_page :: "'a list \<Rightarrow> nat \<Rightarrow> page_arg \<Rightarrow> error + 'a page" where
  "get_page objs per_page n =
     (case validate_number objs per_page n of
        Inr k \<Rightarrow> page objs per_page k
      | Inl PageNotAnInteger \<Rightarrow> page objs per_page 1
      | Inl EmptyPage \<Rightarrow>
          (case num_pages objs per_page of
             Inl e \<Rightarrow> Inl e
           | Inr np \<Rightarrow> page objs per_page np)
      | Inl e \<Rightarrow> Inl e)"

definition get_paginated_page :: "'a list \<Rightarrow> 'f request \<Rightarrow> nat \<Rightarrow> error + 'a page" where
  "get_paginated_page queryset request per_page =
     (let page_number = req_page request
      in get_page queryset per_page page_number)"

section \<open>blog/views.py\<close>

datatype 'a response = Render 'a | Redirect route

text \<open>
  \<^verbatim>\<open>str(request.user)\<close>, as the f-string of the notification and the profile URL use it.
\<close>

fun str_user :: "viewer \<Rightarrow> string" where
  "str_user AnonymousUser = ''AnonymousUser''"
| "str_user (LoggedIn u) = username u"

text \<open>
  Modelled from the spec: \<^verbatim>\<open>with_comment_count\<close>, a queryset method declared in
  \<^verbatim>\<open>blog/models.py\<close>. By the spec every post of a query result is "annotated with its
  live comment count", recomputed on every query.
\<close>

definition with_comment_count :: "db \<Rightarrow> (post \<times> nat) list \<Rightarrow> (post \<times> nat) list" where
  "with_comment_count d queryset = map (\<lambda>(p, n). (p, comment_count d p)) queryset"

subsection \<open>List views\<close>

definition MainPostListView_get_queryset :: "db \<Rightarrow> int \<Rightarrow> (post \<times> nat) list" where
  "MainPostListView_get_queryset d now = with_comment_count d (post_published_query d now)"

text \<open>
  \<^verbatim>\<open>MainPostListView.get_context_data\<close> calls \<^verbatim>\<open>self.get_queryset()\<close>, which a
  subclass overrides: the result of that call is the first argument.
\<close>

definition MainPostListView_get_context_data ::
  "error + (post \<times> nat) list \<Rightarrow> 'f request \<Rightarrow> error + (post \<times> nat) page" where
  "MainPostListView_get_context_data self_get_queryset request =
     (case self_get_queryset of
        Inl e \<Rightarrow> Inl e
      | Inr queryset \<Rightarrow> get_paginated_page queryset request 10)"

text \<open>
  \<^verbatim>\<open>UserPostsListView.get_queryset\<close> returns the queryset and leaves the resolved user in
  \<^verbatim>\<open>self.author\<close>; the model returns both.
\<close>

definition UserPostsListView_get_queryset ::
  "db \<Rightarrow> int \<Rightarrow> 'f request \<Rightarrow> kwargs \<Rightarrow> error + user \<times> (post \<times> nat) list" where
  "UserPostsListView_get_queryset d now request kw =
     (case get_object_or_404 (filter (\<lambda>u. username u = kw_username kw) (users d)) of
        Inl e \<Rightarrow> Inl e
      | Inr a \<Rightarrow>
          let queryset =
            (if user_eq a (req_user request)
             then filter (\<lambda>(p, n). user_pk (author p) = user_pk a) (post_all_query d)
             else filter (\<lambda>(p, n). user_pk (author p) = user_pk a)
                    (MainPostListView_get_queryset d now))
          in Inr (a, with_comment_count d queryset))"

record profile_context =
  profile :: user
  page_obj :: "(post \<times> nat) page"
  total_posts :: nat

definition UserPostsListView_get_context_data ::
  "db \<Rightarrow> int \<Rightarrow> 'f request \<Rightarrow> kwargs \<Rightarrow> error + profile_context" where
  "UserPostsListView_get_context_data d now request kw =
     (case MainPostListView_get_context_data
             (map_sum id snd (UserPostsListView_get_queryset d now request kw)) request of
        Inl e \<Rightarrow> Inl e
      | Inr super_page \<Rightarrow>
          (case UserPostsListView_get_queryset d now request kw of
             Inl e \<Rightarrow> Inl e
           | Inr (a, queryset) \<Rightarrow>
               (case get_paginated_page queryset request 10 of
                  Inl e \<Rightarrow> Inl e
                | Inr pg \<Rightarrow>
                    Inr \<lparr>profile = a, page_obj = pg,
                         total_posts =
                           (if user_eq a (req_user request)
                            then length (filter (\<lambda>(p, n). user_pk (author p) = user_pk a)
                                           (post_all_query d))
                            else length (filter (\<lambda>(p, n). user_pk (author p) = user_pk a)
                                           (post_published_query d now)))\<rparr>)))"

text \<open>
  \<^verbatim>\<open>ListView.get\<close>: \<^verbatim>\<open>self.object_list = self.get_queryset()\<close>, then the context, then
  the rendered page.
\<close>

definition UserPostsListView_get ::
  "db \<Rightarrow> int \<Rightarrow> 'f request \<Rightarrow> kwargs \<Rightarrow> error + profile_context response" where
  "UserPostsListView_get d now request kw =
     (case UserPostsListView_get_queryset d now request kw of
        Inl e \<Rightarrow> Inl e
      | Inr self_object_list \<Rightarrow>
          (case UserPostsListView_get_context_data d now request kw of
             Inl e \<Rightarrow> Inl e
           | Inr ctx \<Rightarrow> Inr (Render ctx)))"

subsection \<open>Detail view\<close>

text \<open>
  \<^verbatim>\<open>PostDetailView.get_queryset\<close> returns the queryset and leaves the post in
  \<^verbatim>\<open>self.post_data\<close>; the model returns both.
\<close>

definition PostDetailView_get_queryset ::
  "db \<Rightarrow> int \<Rightarrow> 'f request \<Rightarrow> kwargs \<Rightarrow> error + post \<times> (post \<times> nat) list" where
  "PostDetailView_get_queryset d now request kw =
     (case get_object_or_404 (filter (\<lambda>p. post_pk p = post_id kw) (posts d)) of
        Inl e \<Rightarrow> Inl e
      | Inr post_data \<Rightarrow>
          if user_eq (author post_data) (req_user request)
          then Inr (post_data,
                 with_comment_count d
                   (filter (\<lambda>(p, n). post_pk p = post_id kw) (post_all_query d)))
          else Inr (post_data,
                 with_comment_count d
                   (filter (\<lambda>(p, n). post_pk p = post_id kw) (post_published_query d now))))"

definition check_post_data :: "post \<Rightarrow> int \<Rightarrow> bool" where
  "check_post_data post_data now =
     list_all (\<lambda>b. b)
       [is_published post_data, pub_date post_data \<le> now,
        cat_is_published (category post_data)]"

record detail_context =
  detail_object :: "post \<times> nat"
  flag :: bool
  detail_comments :: "comment list"

definition PostDetailView_get_context_data ::
  "db \<Rightarrow> int \<Rightarrow> post \<Rightarrow> post \<times> nat \<Rightarrow> detail_context" where
  "PostDetailView_get_context_data d now post_data obj =
     \<lparr>detail_object = obj,
      flag = check_post_data post_data now,
      detail_comments = filter (\<lambda>c. comment_post c = post_pk (fst obj)) (comments d)\<rparr>"

text \<open>
  \<^verbatim>\<open>DetailView.get\<close>: \<^verbatim>\<open>get_object\<close> filters \<^verbatim>\<open>get_queryset()\<close> by the primary key
  of the URL and turns \<^verbatim>\<open>DoesNotExist\<close> into \<^verbatim>\<open>Http404\<close>; then the context is rendered.
\<close>

definition PostDetailView_get ::
  "db \<Rightarrow> int \<Rightarrow> 'f request \<Rightarrow> kwargs \<Rightarrow> error + detail_context response" where
  "PostDetailView_get d now request kw =
     (case PostDetailView_get_queryset d now request kw of
        Inl e \<Rightarrow> Inl e
      | Inr (post_data, queryset) \<Rightarrow>
          (case get_object_or_404 (filter (\<lambda>(p, n). post_pk p = post_id kw) queryset) of
             Inl e \<Rightarrow> Inl e
           | Inr obj \<Rightarrow> Inr (Render (PostDetailView_get_context_data d now post_data obj))))"

subsection \<open>Storage writes\<close>

text \<open>
  \<^verbatim>\<open>form.save()\<close> and \<^verbatim>\<open>object.delete()\<close> go to the storage collaborator, which may
  fail the write; \<open>write_ok\<close> says whether it accepts it. When it does not, the call
  raises and the stored state is as it was. An insert takes the next key of the table's
  sequence and returns the stored row with it, as \<^verbatim>\<open>form.save()\<close> returns the saved
  object.
\<close>

definition Model_save_comment :: "bool \<Rightarrow> db \<Rightarrow> comment \<Rightarrow> error + db \<times> comment" where
  "Model_save_comment write_ok d c =
     (if \<not> write_ok then Inl DatabaseError
      else let saved = c\<lparr>comment_pk := Suc (comment_pk_seq d)\<rparr>
           in Inr (d\<lparr>comments := comments d @ [saved],
                     comment_pk_seq := Suc (comment_pk_seq d)\<rparr>, saved))"

definition Model_update_comment :: "bool \<Rightarrow> db \<Rightarrow> comment \<Rightarrow> error + db" where
  "Model_update_comment write_ok d c =
     (if \<not> write_ok then Inl DatabaseError
      else Inr (d\<lparr>comments :=
                   map (\<lambda>x. if comment_pk x = comment_pk c then c else x) (comments d)\<rparr>))"

definition Model_delete_comment :: "bool \<Rightarrow> db \<Rightarrow> comment \<Rightarrow> error + db" where
  "Model_delete_comment write_ok d c =
     (if \<not> write_ok then Inl DatabaseError
      else Inr (d\<lparr>comments := filter (\<lambda>x. comment_pk x \<noteq> comment_pk c) (comments d)\<rparr>))"

definition Model_save_post :: "bool \<Rightarrow> db \<Rightarrow> post \<Rightarrow> error + db \<times> post" where
  "Model_save_post write_ok d p =
     (if \<not> write_ok then Inl DatabaseError
      else let saved = p\<lparr>post_pk := Suc (post_pk_seq d)\<rparr>
           in Inr (d\<lparr>posts := posts d @ [saved], post_pk_seq := Suc (post_pk_seq d)\<rparr>,
                   saved))"

definition Model_update_post :: "bool \<Rightarrow> db \<Rightarrow> post \<Rightarrow> error + db" where
  "Model_update_post write_ok d p =
     (if \<not> write_ok then Inl DatabaseError
      else Inr (d\<lparr>posts := map (\<lambda>q. if post_pk q = post_pk p then p else q) (posts d)\<rparr>))"

text \<open>
  Modelled from the spec: the \<^verbatim>\<open>on_delete\<close> rule of \<^verbatim>\<open>Comment.post\<close>
  (\<^verbatim>\<open>blog/models.py\<close>). By the spec comments go with their post ("cascade when the
  owning post is deleted, handled by the storage layer").
\<close>

definition Model_delete_post :: "bool \<Rightarrow> db \<Rightarrow> post \<Rightarrow> error + db" where
  "Model_delete_post write_ok d p =
     (if \<not> write_ok then Inl DatabaseError
      else Inr (d\<lparr>posts := filter (\<lambda>q. post_pk q \<noteq> post_pk p) (posts d),
                  comments := filter (\<lambda>c. comment_post c \<noteq> post_pk p) (comments d)\<rparr>))"

subsection \<open>Login-required views\<close>

text \<open>
  \<^verbatim>\<open>LoginRequiredMixin.dispatch\<close>: an unauthenticated request gets
  \<^verbatim>\<open>handle_no_permission()\<close>, the redirect to the login page, and the state \<open>s\<close> is
  not touched; any other request goes on to \<^verbatim>\<open>super().dispatch\<close>.
\<close>

definition LoginRequiredMixin_dispatch ::
  "'f request \<Rightarrow> 's \<Rightarrow> ('s \<Rightarrow> (error + 'a response) \<times> 's) \<Rightarrow> (error + 'a response) \<times> 's" where
  "LoginRequiredMixin_dispatch request s super_dispatch =
     (if \<not> is_authenticated (req_user request) then (Inr (Redirect Login), s)
      else super_dispatch s)"

text \<open>
  \<^verbatim>\<open>PostCreateView\<close>: the submitted form is \<open>None\<close> when \<^verbatim>\<open>form.is_valid()\<close> is
  false and the new post otherwise; \<^verbatim>\<open>form_valid\<close> sets its author. Assigning
  \<^verbatim>\<open>AnonymousUser\<close> to the foreign key raises \<^verbatim>\<open>ValueError\<close>.
\<close>

definition PostCreateView_form_valid ::
  "bool \<Rightarrow> post option request \<Rightarrow> post \<Rightarrow> db \<Rightarrow> (error + unit response) \<times> db" where
  "PostCreateView_form_valid write_ok request form d =
     (case req_user request of
        AnonymousUser \<Rightarrow> (Inl ValueError, d)
      | LoggedIn u \<Rightarrow>
          (case Model_save_post write_ok d (form\<lparr>author := u\<rparr>) of
             Inl e \<Rightarrow> (Inl e, d)
           | Inr (d', saved) \<Rightarrow>
               (Inr (Redirect (Profile (str_user (req_user request)))), d')))"

definition PostCreateView_dispatch ::
  "bool \<Rightarrow> post option request \<Rightarrow> db \<Rightarrow> (error + unit response) \<times> db" where
  "PostCreateView_dispatch write_ok request d =
     LoginRequiredMixin_dispatch request d
       (\<lambda>d. case req_method request of
               GET \<Rightarrow> (Inr (Render ()), d)
             | POST \<Rightarrow>
                 (case req_form request of
                    None \<Rightarrow> (Inr (Render ()), d)
                  | Some form \<Rightarrow> PostCreateView_form_valid write_ok request form d))"

text \<open>
  \<^verbatim>\<open>UpdateView\<close> on a post: \<^verbatim>\<open>get\<close> renders the form bound to the object; \<^verbatim>\<open>post\<close>
  binds the form to the object and validates it. The submitted form is the pair of
  \<^verbatim>\<open>form.is_valid()\<close> and the function by which the cleaning of a \<^verbatim>\<open>ModelForm\<close> writes
  the fields that validated into the instance (a \<^verbatim>\<open>ModelForm\<close> has no field for the
  primary key). An invalid form is rendered again with the instance so rewritten and
  nothing is stored; a valid one is saved and the answer is the redirect to
  \<^verbatim>\<open>get_success_url()\<close>.
\<close>

definition PostUpdateView_super_dispatch ::
  "bool \<Rightarrow> (bool \<times> (post \<Rightarrow> post)) request \<Rightarrow> kwargs \<Rightarrow> db
     \<Rightarrow> (error + post response) \<times> db" where
  "PostUpdateView_super_dispatch write_ok request kw d =
     (case get_object_or_404 (filter (\<lambda>p. post_pk p = post_id kw) (posts d)) of
        Inl e \<Rightarrow> (Inl e, d)
      | Inr obj \<Rightarrow>
          (case req_method request of
             GET \<Rightarrow> (Inr (Render obj), d)
           | POST \<Rightarrow>
               (case req_form request of
                  (is_valid, clean) \<Rightarrow>
                    if \<not> is_valid then (Inr (Render (clean obj)), d)
                    else (case Model_update_post write_ok d (clean obj) of
                            Inl e \<Rightarrow> (Inl e, d)
                          | Inr d' \<Rightarrow> (Inr (Redirect (PostDetail (post_id kw))), d')))))"

definition PostUpdateView_dispatch ::
  "bool \<Rightarrow> (bool \<times> (post \<Rightarrow> post)) request \<Rightarrow> kwargs \<Rightarrow> db
     \<Rightarrow> (error + post response) \<times> db" where
  "PostUpdateView_dispatch write_ok request kw d =
     (case get_object_or_404 (filter (\<lambda>p. post_pk p = post_id kw) (posts d)) of
        Inl e \<Rightarrow> (Inl e, d)
      | Inr obj \<Rightarrow>
          if \<not> user_eq (author obj) (req_user request)
          then (Inr (Redirect (PostDetail (post_id kw))), d)
          else LoginRequiredMixin_dispatch request d
                 (PostUpdateView_super_dispatch write_ok request kw))"

text \<open>
  \<^verbatim>\<open>DeleteView\<close> on a post: \<^verbatim>\<open>get\<close> renders the confirmation page, \<^verbatim>\<open>post\<close> deletes
  the object and redirects to the profile of \<^verbatim>\<open>request.user\<close>.
\<close>

definition PostDeleteView_super_dispatch ::
  "bool \<Rightarrow> 'f request \<Rightarrow> kwargs \<Rightarrow> db \<Rightarrow> (error + post response) \<times> db" where
  "PostDeleteView_super_dispatch write_ok request kw d =
     (case get_object_or_404 (filter (\<lambda>p. post_pk p = post_id kw) (posts d)) of
        Inl e \<Rightarrow> (Inl e, d)
      | Inr obj \<Rightarrow>
          (case req_method request of
             GET \<Rightarrow> (Inr (Render obj), d)
           | POST \<Rightarrow>
               (case Model_delete_post write_ok d obj of
                  Inl e \<Rightarrow> (Inl e, d)
                | Inr d' \<Rightarrow> (Inr (Redirect (Profile (str_user (req_user request)))), d'))))"

definition PostDeleteView_dispatch ::
  "bool \<Rightarrow> 'f request \<Rightarrow> kwargs \<Rightarrow> db \<Rightarrow> (error + post response) \<times> db" where
  "PostDeleteView_dispatch write_ok request kw d =
     (case get_object_or_404 (filter (\<lambda>p. post_pk p = post_id kw) (posts d)) of
        Inl e \<Rightarrow> (Inl e, d)
      | Inr obj \<Rightarrow>
          if \<not> user_eq (author obj) (req_user request)
          then (Inr (Redirect (PostDetail (post_id kw))), d)
          else LoginRequiredMixin_dispatch request d
                 (PostDeleteView_super_dispatch write_ok request kw))"

subsection \<open>Comment creation\<close>

record mail =
  subject :: string
  message :: string
  from_email :: string
  recipient_list :: "string list"

text \<open>
  What comment creation does to the outside, in the order in which it happens: a message
  handed to the mail backend, a comment row written to the table. A request appends its
  effects to the log it is given; \<open>outbox\<close> reads the messages off a log.
\<close>

datatype effect = MailSent mail | CommentSaved comment

fun outbox :: "effect list \<Rightarrow> mail list" where
  "outbox [] = []"
| "outbox (MailSent m # es) = m # outbox es"
| "outbox (CommentSaved c # es) = outbox es"

text \<open>
  Django's \<^verbatim>\<open>send_mail(..., fail_silently=True)\<close> builds one message for the recipient
  list. \<^verbatim>\<open>EmailMessage.send\<close> counts the recipients that are not the empty string and
  returns without handing anything to the backend when there is none; otherwise the one
  message goes to the backend, and a failure of the transport is swallowed. Addresses
  are values of the user's email field, which holds no line break.
\<close>

definition send_mail :: "string \<Rightarrow> string \<Rightarrow> string \<Rightarrow> string list \<Rightarrow> effect list \<Rightarrow> effect list" where
  "send_mail s m f r log =
     (if filter (\<lambda>a. a \<noteq> []) r = [] then log
      else log @ [MailSent \<lparr>subject = s, message = m, from_email = f, recipient_list = r\<rparr>])"

definition CommentCreateView_get_success_url :: "kwargs \<Rightarrow> route" where
  "CommentCreateView_get_success_url kw = PostDetail (post_id kw)"

text \<open>
  The literals of the message are Cyrillic; they are given as their UTF-8 bytes:
  \<open>msg_user\<close> is the prefix before the user, \<open>msg_added\<close> the word after it,
  \<open>msg_comment_to_post\<close> the words before the title and \<open>msg_read_comment\<close> the words
  before the link.
\<close>

definition msg_user :: string where
  "msg_user =
     [CHR 0xD0, CHR 0x9F, CHR 0xD0, CHR 0xBE, CHR 0xD0, CHR 0xBB, CHR 0xD1, CHR 0x8C,
      CHR 0xD0, CHR 0xB7, CHR 0xD0, CHR 0xBE, CHR 0xD0, CHR 0xB2, CHR 0xD0, CHR 0xB0,
      CHR 0xD1, CHR 0x82, CHR 0xD0, CHR 0xB5, CHR 0xD0, CHR 0xBB, CHR 0xD1, CHR 0x8C,
      CHR 0x20]"

definition msg_added :: string where
  "msg_added =
     [CHR 0x20, CHR 0xD0, CHR 0xB4, CHR 0xD0, CHR 0xBE, CHR 0xD0, CHR 0xB1, CHR 0xD0,
      CHR 0xB0, CHR 0xD0, CHR 0xB2, CHR 0xD0, CHR 0xB8, CHR 0xD0, CHR 0xBB, CHR 0x20]"

definition msg_comment_to_post :: string where
  "msg_comment_to_post =
     [CHR 0xD0, CHR 0xBA, CHR 0xD0, CHR 0xBE, CHR 0xD0, CHR 0xBC, CHR 0xD0, CHR 0xBC,
      CHR 0xD0, CHR 0xB5, CHR 0xD0, CHR 0xBD, CHR 0xD1, CHR 0x82, CHR 0xD0, CHR 0xB0,
      CHR 0xD1, CHR 0x80, CHR 0xD0, CHR 0xB8, CHR 0xD0, CHR 0xB9, CHR 0x20, CHR 0xD0,
      CHR 0xBA, CHR 0x20, CHR 0xD0, CHR 0xBF, CHR 0xD0, CHR 0xBE, CHR 0xD1, CHR 0x81,
      CHR 0xD1, CHR 0x82, CHR 0xD1, CHR 0x83, CHR 0x20]"

definition msg_read_comment :: string where
  "msg_read_comment =
     [CHR 0xD0, CHR 0xA7, CHR 0xD0, CHR 0xB8, CHR 0xD1, CHR 0x82, CHR 0xD0, CHR 0xB0,
      CHR 0xD1, CHR 0x82, CHR 0xD1, CHR 0x8C, CHR 0x20, CHR 0xD0, CHR 0xBA, CHR 0xD0,
      CHR 0xBE, CHR 0xD0, CHR 0xBC, CHR 0xD0, CHR 0xBC, CHR 0xD0, CHR 0xB5, CHR 0xD0,
      CHR 0xBD, CHR 0xD1, CHR 0x82, CHR 0xD0, CHR 0xB0, CHR 0xD1, CHR 0x80, CHR 0xD0,
      CHR 0xB8, CHR 0xD0, CHR 0xB9, CHR 0x20]"

definition send_author_email ::
  "'f request \<Rightarrow> kwargs \<Rightarrow> post \<Rightarrow> effect list \<Rightarrow> effect list" where
  "send_author_email request kw post_data log =
     (let post_url = build_absolute_uri request (CommentCreateView_get_success_url kw);
          recipient_email = email (author post_data);
          subj = ''New comment'';
          msg = msg_user @ str_user (req_user request) @ msg_added
                @ msg_comment_to_post @ title post_data @ [CHR ''.'', CHR 0x0A]
                @ msg_read_comment @ post_url
      in send_mail subj msg ''from@example.com'' [recipient_email] log)"

text \<open>
  \<^verbatim>\<open>CommentCreateView.form_valid\<close>: author and post of the new comment are set; if the
  author of the post is not the commenter, \<^verbatim>\<open>send_author_email\<close> runs; then
  \<^verbatim>\<open>super().form_valid(form)\<close> saves the comment and redirects. The state is the pair of
  the stored state and the log of effects: the notification is logged by
  \<^verbatim>\<open>send_author_email\<close>, the written row after it by the save. The submitted form is
  \<open>None\<close> when \<^verbatim>\<open>form.is_valid()\<close> is false and the text of the comment otherwise.
\<close>

definition CommentCreateView_form_valid ::
  "bool \<Rightarrow> string option request \<Rightarrow> kwargs \<Rightarrow> post \<Rightarrow> string \<Rightarrow> db \<times> effect list
     \<Rightarrow> (error + unit response) \<times> db \<times> effect list" where
  "CommentCreateView_form_valid write_ok request kw post_data form s =
     (case req_user request of
        AnonymousUser \<Rightarrow> (Inl ValueError, s)
      | LoggedIn u \<Rightarrow>
          let instance = \<lparr>comment_pk = 0, comment_author = u,
                          comment_post = post_pk post_data, comment_body = form\<rparr>;
              log = (if \<not> user_eq (author post_data) (req_user request)
                     then send_author_email request kw post_data (snd s)
                     else snd s)
          in (case Model_save_comment write_ok (fst s) instance of
                Inl e \<Rightarrow> (Inl e, fst s, log)
              | Inr (d', saved) \<Rightarrow>
                  (Inr (Redirect (CommentCreateView_get_success_url kw)), d',
                   log @ [CommentSaved saved])))"

definition CommentCreateView_super_dispatch ::
  "bool \<Rightarrow> string option request \<Rightarrow> kwargs \<Rightarrow> post \<Rightarrow> db \<times> effect list
     \<Rightarrow> (error + unit response) \<times> db \<times> effect list" where
  "CommentCreateView_super_dispatch write_ok request kw post_data s =
     LoginRequiredMixin_dispatch request s
       (\<lambda>s. case req_method request of
               GET \<Rightarrow> (Inr (Render ()), s)
             | POST \<Rightarrow>
                 (case req_form request of
                    None \<Rightarrow> (Inr (Render ()), s)
                  | Some form \<Rightarrow> CommentCreateView_form_valid write_ok request kw post_data form s))"

definition CommentCreateView_dispatch ::
  "bool \<Rightarrow> int \<Rightarrow> string option request \<Rightarrow> kwargs \<Rightarrow> db \<times> effect list
     \<Rightarrow> (error + unit response) \<times> db \<times> effect list" where
  "CommentCreateView_dispatch write_ok now request kw s =
     (case get_post_data (fst s) now kw of
        Inl e \<Rightarrow> (Inl e, s)
      | Inr post_data \<Rightarrow> CommentCreateView_super_dispatch write_ok request kw post_data s)"

subsection \<open>Comment update and delete\<close>

text \<open>
  Modelled from the spec: \<^verbatim>\<open>CommentMixinView\<close> of \<^verbatim>\<open>core/mixins.py\<close>, the base class of
  \<^verbatim>\<open>CommentUpdateView\<close> and \<^verbatim>\<open>CommentDeleteView\<close>. By the spec the two routes "require
  authentication and ownership (the comment's own author only; guarded identically to
  the mutation guard, scoped to the comment's parent post for routing)": an
  unauthenticated viewer is redirected to the authentication entry point, an
  unresolvable comment identifier is not found, and an authenticated viewer who is not
  the comment's author is redirected to the detail page instead of the mutation. For
  its owner \<^verbatim>\<open>CommentUpdateView\<close> is an \<^verbatim>\<open>UpdateView\<close> as above, with the submitted form
  the pair of \<^verbatim>\<open>form.is_valid()\<close> and the rewriting of the instance.
\<close>

definition CommentMixinView_dispatch ::
  "'f request \<Rightarrow> kwargs \<Rightarrow> db \<Rightarrow> (comment \<Rightarrow> db \<Rightarrow> (error + comment response) \<times> db)
     \<Rightarrow> (error + comment response) \<times> db" where
  "CommentMixinView_dispatch request kw d super_dispatch =
     (if \<not> is_authenticated (req_user request) then (Inr (Redirect Login), d)
      else (case get_object_or_404 (filter (\<lambda>c. comment_pk c = comment_id kw) (comments d)) of
              Inl e \<Rightarrow> (Inl e, d)
            | Inr obj \<Rightarrow>
                if \<not> user_eq (comment_author obj) (req_user request)
                then (Inr (Redirect (PostDetail (comment_post obj))), d)
                else super_dispatch obj d))"

definition CommentUpdateView_dispatch ::
  "bool \<Rightarrow> (bool \<times> (comment \<Rightarrow> comment)) request \<Rightarrow> kwargs \<Rightarrow> db
     \<Rightarrow> (error + comment response) \<times> db" where
  "CommentUpdateView_dispatch write_ok request kw d =
     CommentMixinView_dispatch request kw d
       (\<lambda>obj d. case req_method request of
                   GET \<Rightarrow> (Inr (Render obj), d)
                 | POST \<Rightarrow>
                     (case req_form request of
                        (is_valid, clean) \<Rightarrow>
                          if \<not> is_valid then (Inr (Render (clean obj)), d)
                          else (case Model_update_comment write_ok d (clean obj) of
                                  Inl e \<Rightarrow> (Inl e, d)
                                | Inr d' \<Rightarrow>
                                    (Inr (Redirect (PostDetail (post_id kw))), d'))))"

definition CommentDeleteView_dispatch ::
  "bool \<Rightarrow> 'f request \<Rightarrow> kwargs \<Rightarrow> db \<Rightarrow> (error + comment response) \<times> db" where
  "CommentDeleteView_dispatch write_ok request kw d =
     CommentMixinView_dispatch request kw d
       (\<lambda>obj d. case req_method request of
                   GET \<Rightarrow> (Inr (Render obj), d)
                 | POST \<Rightarrow>
                     (case Model_delete_comment write_ok d obj of
                        Inl e \<Rightarrow> (Inl e, d)
                      | Inr d' \<Rightarrow> (Inr (Redirect (PostDetail (post_id kw))), d')))"

section \<open>An example database\<close>

definition alice :: user where
  "alice = \<lparr>user_pk = 1, username = ''alice'', email = ''alice@example.com''\<rparr>"

definition bob :: user where
  "bob = \<lparr>user_pk = 2, username = ''bob'', email = ''bob@example.com''\<rparr>"

definition news :: category where
  "news = \<lparr>category_pk = 1, slug = ''news'', cat_is_published = True\<rparr>"

definition hello_post :: post where
  "hello_post = \<lparr>post_pk = 1, author = alice, category = news, title = ''Hello'',
                  pub_date = 100, is_published = True\<rparr>"

definition draft_post :: post where
  "draft_post = \<lparr>post_pk = 2, author = alice, category = news, title = ''Draft'',
                  pub_date = 50, is_published = False\<rparr>"

definition nice_comment :: comment where
  "nice_comment = \<lparr>comment_pk = 1, comment_author = bob, comment_post = 1,
                    comment_body = ''Nice''\<rparr>"

definition blog_db :: db where
  "blog_db = \<lparr>users = [alice, bob], posts = [hello_post, draft_post],
               comments = [nice_comment], post_pk_seq = 2, comment_pk_seq = 1\<rparr>"

text \<open>
  A second database: carol has left her email address empty, as the user's email field
  allows, and has one published post.
\<close>

definition carol :: user where
  "carol = \<lparr>user_pk = 3, username = ''carol'', email = []\<rparr>"

definition carol_post :: post where
  "carol_post = \<lparr>post_pk = 3, author = carol, category = news, title = ''Quiet'',
                  pub_date = 100, is_published = True\<rparr>"

definition carol_db :: db where
  "carol_db = \<lparr>users = [bob, carol], posts = [carol_post], comments = [],
                post_pk_seq = 3, comment_pk_seq = 1\<rparr>"

definition a_request :: "viewer \<Rightarrow> http_method \<Rightarrow> page_arg \<Rightarrow> 'f \<Rightarrow> 'f request" where
  "a_request v m n f =
     \<lparr>req_user = v, req_method = m, req_page = n, req_form = f,
      build_absolute_uri = (\<lambda>r. ''http://testserver/posts/1/'')\<rparr>"

definition a_kwargs :: "nat \<Rightarrow> kwargs" where
  "a_kwargs n = \<lparr>post_id = n, comment_id = 1, kw_username = ''alice''\<rparr>"

section \<open>Properties\<close>

subsection \<open>Query builders\<close>

lemma set_post_all_query:
  "set (post_all_query d) = (\<lambda>p. (p, comment_count d p)) ` set (posts d)"
  by (simp add: post_all_query_def)

lemma post_published_query_iff:
  "(p, n) \<in> set (post_published_query d now) \<longleftrightarrow>
     p \<in> set (posts d) \<and> n = comment_count d p
     \<and> is_published p \<and> pub_date p \<le> now \<and> cat_is_published (category p)"
  by (auto simp: post_published_query_def set_post_all_query)

text \<open>
  Claim C1. A post is a member of the sequence \<^verbatim>\<open>post_published_query()\<close> returns if and
  only if it is a stored post whose own published flag is true, whose publication
  timestamp is at most the current time and whose category's published flag is true.
  The member carries the post's live comment count.
\<close>

theorem post_published_query_member:
  "(p \<in> fst ` set (post_published_query d now) \<longleftrightarrow>
      p \<in> set (posts d) \<and> is_published p \<and> pub_date p \<le> now
      \<and> cat_is_published (category p))
   \<and> ((p, n) \<in> set (post_published_query d now) \<longleftrightarrow>
      p \<in> set (posts d) \<and> n = comment_count d p \<and> is_published p \<and> pub_date p \<le> now
      \<and> cat_is_published (category p))"
proof -
  have "p \<in> fst ` set (post_published_query d now) \<longleftrightarrow>
          (\<exists>k. (p, k) \<in> set (post_published_query d now))"
    by force
  then show ?thesis
    by (simp add: post_published_query_iff)
qed

text \<open>
  On the example database at time 500 the published post is a member, with its one
  comment counted, and the draft is not.
\<close>

theorem post_published_query_member_witness:
  "hello_post \<in> fst ` set (post_published_query blog_db 500)
   \<and> (hello_post, 1) \<in> set (post_published_query blog_db 500)
   \<and> draft_post \<notin> fst ` set (post_published_query blog_db 500)"
  using post_published_query_member [of hello_post blog_db 500 1]
    post_published_query_member [of draft_post blog_db 500 0]
  by (simp add: blog_db_def hello_post_def draft_post_def nice_comment_def news_def
      comment_count_def)

subsection \<open>Pagination\<close>

lemma num_pages_10:
  "num_pages objs 10 = Inr ((max 1 (int (length objs)) + 9) div 10)"
  by (simp add: num_pages_def)

lemma last_page_ge_1: "1 \<le> (max 1 (int (length objs)) + 9) div 10"
proof -
  have "(10::int) div 10 \<le> (max 1 (int (length objs)) + 9) div 10"
    by (rule zdiv_mono1) simp_all
  then show ?thesis by simp
qed

lemma validate_number_10:
  "validate_number objs 10 (IntPage k) =
     (if 1 \<le> k \<and> k \<le> (max 1 (int (length objs)) + 9) div 10 then Inr k else Inl EmptyPage)"
  by (simp add: validate_number_def num_pages_10)

lemma page_10:
  assumes "1 \<le> k" "k \<le> (max 1 (int (length objs)) + 9) div 10"
  shows "page objs 10 k =
           Inr \<lparr>object_list = take 10 (drop (10 * nat (k - 1)) objs), number = k\<rparr>"
proof -
  have v: "validate_number objs 10 (IntPage k) = Inr k"
    using assms by (simp add: validate_number_10)
  define m where "m = nat (k - 1)"
  have k: "k = int m + 1"
    using assms by (simp add: m_def)
  have b: "nat ((k - 1) * int 10) = 10 * m"
    by (simp add: k)
  show ?thesis
  proof (cases "(k - 1) * int 10 + int 10 \<ge> int (length objs)")
    case True
    then have le: "length objs \<le> 10 * m + 10"
      by (simp add: k)
    have t: "nat (int (length objs) - (k - 1) * int 10) = length objs - 10 * m"
      by (simp add: k)
    have "take (length objs - 10 * m) (drop (10 * m) objs) = drop (10 * m) objs"
      by simp
    moreover have "take 10 (drop (10 * m) objs) = drop (10 * m) objs"
      using le by simp
    ultimately have "take (nat (int (length objs) - (k - 1) * int 10))
                       (drop (nat ((k - 1) * int 10)) objs)
                     = take 10 (drop (10 * m) objs)"
      by (simp only: t b)
    with True show ?thesis
      unfolding page_def v Let_def m_def by simp
  next
    case False
    have "nat ((k - 1) * int 10 + int 10 - (k - 1) * int 10) = 10"
      by simp
    with False show ?thesis
      unfolding page_def v Let_def using b by (simp add: m_def)
  qed
qed

lemma get_page_10:
  "get_page objs 10 n =
     Inr \<lparr>object_list =
            take 10 (drop (10 * nat ((case n of
               IntPage k \<Rightarrow>
                 if 1 \<le> k \<and> k \<le> (max 1 (int (length objs)) + 9) div 10 then k
                 else (max 1 (int (length objs)) + 9) div 10
             | _ \<Rightarrow> 1) - 1)) objs),
          number = (case n of
               IntPage k \<Rightarrow>
                 if 1 \<le> k \<and> k \<le> (max 1 (int (length objs)) + 9) div 10 then k
                 else (max 1 (int (length objs)) + 9) div 10
             | _ \<Rightarrow> 1)\<rparr>"
proof -
  have one: "page objs 10 1 = Inr \<lparr>object_list = take 10 (drop (10 * nat (1 - 1)) objs), number = 1\<rparr>"
    by (rule page_10) (simp_all add: last_page_ge_1)
  have last: "page objs 10 ((max 1 (int (length objs)) + 9) div 10) =
            Inr \<lparr>object_list =
                   take 10 (drop (10 * nat ((max 1 (int (length objs)) + 9) div 10 - 1)) objs),
                 number = (max 1 (int (length objs)) + 9) div 10\<rparr>"
    by (rule page_10) (simp_all add: last_page_ge_1)
  show ?thesis
  proof (cases n)
    case NoPage
    then show ?thesis
      unfolding get_page_def by (simp add: validate_number_def one)
  next
    case NotAnInteger
    then show ?thesis
      unfolding get_page_def by (simp add: validate_number_def one)
  next
    case (IntPage k)
    show ?thesis
    proof (cases "1 \<le> k \<and> k \<le> (max 1 (int (length objs)) + 9) div 10")
      case True
      then have "page objs 10 k =
           Inr \<lparr>object_list = take 10 (drop (10 * nat (k - 1)) objs), number = k\<rparr>"
        by (simp add: page_10)
      with True show ?thesis
        unfolding IntPage get_page_def validate_number_10 by simp
    next
      case False
      then have "validate_number objs 10 (IntPage k) = Inl EmptyPage"
        by (simp only: validate_number_10 if_False)
      with False show ?thesis
        unfolding IntPage get_page_def by (auto simp add: num_pages_10 last)
    qed
  qed
qed

text \<open>
  Claim C6, as the code has it. With \<^verbatim>\<open>per_page=10\<close> the pagination helper returns a
  page for every sequence and every \<^verbatim>\<open>page\<close> parameter. A missing or non-integer
  parameter gives page 1; an integer between 1 and the last page gives that page; every
  other integer, below 1 as well as past the last page, gives the last page. The page
  holds the (at most ten) items of its number. With 25 items page 1 holds items 1 to 10,
  page 3 holds items 21 to 25, and page 99 is page 3.
\<close>

theorem get_paginated_page_clamps_to_last:
  fixes queryset :: "'a list" and request :: "'f request"
  shows "\<exists>pg. get_paginated_page queryset request 10 = Inr pg
     \<and> object_list pg = take 10 (drop (10 * nat (number pg - 1)) queryset)
     \<and> (req_page request = NoPage \<or> req_page request = NotAnInteger \<longrightarrow> number pg = 1)
     \<and> (\<forall>k. req_page request = IntPage k \<longrightarrow>
           (1 \<le> k \<and> k \<le> (max 1 (int (length queryset)) + 9) div 10 \<longrightarrow> number pg = k)
         \<and> (k < 1 \<or> (max 1 (int (length queryset)) + 9) div 10 < k \<longrightarrow>
              number pg = (max 1 (int (length queryset)) + 9) div 10))
     \<and> (length queryset = 25 \<longrightarrow>
           (req_page request = IntPage 1 \<longrightarrow> object_list pg = take 10 queryset)
         \<and> (req_page request = IntPage 3 \<longrightarrow> object_list pg = drop 20 queryset)
         \<and> (req_page request = IntPage 99 \<longrightarrow>
              number pg = 3 \<and> object_list pg = drop 20 queryset))"
proof (cases "req_page request")
  case NoPage
  then show ?thesis
    by (simp add: get_paginated_page_def get_page_10)
next
  case NotAnInteger
  then show ?thesis
    by (simp add: get_paginated_page_def get_page_10)
next
  case (IntPage k)
  then show ?thesis
    by (auto simp add: get_paginated_page_def get_page_10)
qed

text \<open>Page 99 of the 25 items 1 to 25 is page 3, the items 21 to 25.\<close>

theorem get_paginated_page_clamps_to_last_witness:
  "\<exists>pg. get_paginated_page
          [1, 2, 3, 4, 5, 6, 7, 8, 9, 10, 11, 12, 13, 14, 15, 16, 17, 18, 19, 20, 21, 22, 23,
           24, 25 :: nat]
          (a_request AnonymousUser GET (IntPage 99) (None :: unit option)) 10 = Inr pg
        \<and> number pg = 3 \<and> object_list pg = [21, 22, 23, 24, 25]"
  using get_paginated_page_clamps_to_last
    [of "[1, 2, 3, 4, 5, 6, 7, 8, 9, 10, 11, 12, 13, 14, 15, 16, 17, 18, 19, 20, 21, 22, 23,
          24, 25 :: nat]"
        "a_request AnonymousUser GET (IntPage 99) (None :: unit option)"]
  by (auto simp add: a_request_def)

text \<open>
  The claim as stated sends a number below the first page to the first page. On the code
  page 0 of 25 items is not page 1: \<^verbatim>\<open>validate_number\<close> raises \<^verbatim>\<open>EmptyPage\<close> for
  every number below 1, and \<^verbatim>\<open>get_page\<close> answers \<^verbatim>\<open>EmptyPage\<close> with the last page.
\<close>

theorem page_below_first_is_last_page:
  "\<not> (\<exists>pg. get_paginated_page
          [1, 2, 3, 4, 5, 6, 7, 8, 9, 10, 11, 12, 13, 14, 15, 16, 17, 18, 19, 20, 21, 22, 23,
           24, 25 :: nat]
          (a_request AnonymousUser GET (IntPage 0) (None :: unit option)) 10 = Inr pg
        \<and> number pg = 1)"
  by (simp add: get_paginated_page_def get_page_def validate_number_def num_pages_def page_def
      a_request_def)

subsection \<open>Lookup by primary key\<close>

text \<open>
  The primary key of a table is unique. Under that constraint a lookup by key finds the
  row that carries it.
\<close>

lemma filter_key_unique:
  "distinct (map f xs) \<Longrightarrow> x \<in> set xs \<Longrightarrow>
     filter (\<lambda>y. f y = f x \<and> P y) xs = (if P x then [x] else [])"
proof (induction xs)
  case Nil
  then show ?case by simp
next
  case (Cons y ys)
  show ?case
  proof (cases "y = x")
    case True
    from Cons.prems True have "f x \<notin> f ` set ys"
      by simp
    then have "\<forall>z\<in>set ys. f z \<noteq> f x"
      by (metis imageI)
    then have "filter (\<lambda>y. f y = f x \<and> P y) ys = []"
      by (simp add: filter_empty_conv)
    with True show ?thesis by simp
  next
    case False
    with Cons.prems have "x \<in> set ys" "distinct (map f ys)" "f y \<noteq> f x"
      by auto
    with Cons.IH show ?thesis by simp
  qed
qed

lemma filter_pk_unique:
  "distinct (map f xs) \<Longrightarrow> x \<in> set xs \<Longrightarrow> filter (\<lambda>y. f y = f x) xs = [x]"
  using filter_key_unique [of f xs x "\<lambda>y. True"] by simp

lemma filter_post_all_query:
  "filter (\<lambda>(p, n). Q p) (post_all_query d) =
     sort_key (\<lambda>(p, n). - pub_date p) (map (\<lambda>p. (p, comment_count d p)) (filter Q (posts d)))"
  by (simp add: post_all_query_def filter_sort filter_map comp_def)

lemma post_all_query_by_pk:
  assumes "distinct (map post_pk (posts d))" "p \<in> set (posts d)"
  shows "filter (\<lambda>(q, n). post_pk q = post_pk p) (post_all_query d) = [(p, comment_count d p)]"
  using assms by (simp add: filter_post_all_query filter_pk_unique)

lemma post_published_query_by_pk:
  assumes "distinct (map post_pk (posts d))" "p \<in> set (posts d)"
  shows "filter (\<lambda>(q, n). post_pk q = post_pk p) (post_published_query d now) =
           (if pub_date p \<le> now \<and> is_published p \<and> cat_is_published (category p)
            then [(p, comment_count d p)] else [])"
proof -
  have "filter (\<lambda>(q, n). post_pk q = post_pk p) (post_published_query d now) =
          filter (\<lambda>(q, n). pub_date q \<le> now \<and> is_published q \<and> cat_is_published (category q))
            (filter (\<lambda>(q, n). post_pk q = post_pk p) (post_all_query d))"
    by (simp add: post_published_query_def conj_commute case_prod_unfold)
  then show ?thesis
    using assms by (simp add: post_all_query_by_pk)
qed

lemma get_post_data_by_pk:
  assumes "distinct (map post_pk (posts d))" "p \<in> set (posts d)" "post_id kw = post_pk p"
  shows "get_post_data d now kw =
           (if pub_date p \<le> now \<and> is_published p \<and> cat_is_published (category p)
            then Inr p else Inl Http404)"
  using assms
    filter_key_unique [of post_pk "posts d" p
      "\<lambda>q. pub_date q \<le> now \<and> is_published q \<and> cat_is_published (category q)"]
  by (simp add: get_post_data_def)

lemma get_post_by_pk:
  assumes "distinct (map post_pk (posts d))" "p \<in> set (posts d)" "post_id kw = post_pk p"
  shows "get_object_or_404 (filter (\<lambda>q. post_pk q = post_id kw) (posts d)) = Inr p"
  using assms by (simp add: filter_pk_unique)

lemma PostDetailView_get_by_pk:
  assumes "distinct (map post_pk (posts d))" "p \<in> set (posts d)" "post_id kw = post_pk p"
  shows "PostDetailView_get d now request kw =
           (if user_eq (author p) (req_user request)
               \<or> (is_published p \<and> pub_date p \<le> now \<and> cat_is_published (category p))
            then Inr (Render (PostDetailView_get_context_data d now p (p, comment_count d p)))
            else Inl Http404)"
proof -
  have g: "get_object_or_404 (filter (\<lambda>q. post_pk q = post_id kw) (posts d)) = Inr p"
    using assms by (rule get_post_by_pk)
  have a: "filter (\<lambda>(q, n). post_pk q = post_id kw) (post_all_query d) =
             [(p, comment_count d p)]"
    using assms by (simp add: post_all_query_by_pk)
  have b: "filter (\<lambda>(q, n). post_pk q = post_id kw) (post_published_query d now) =
             (if pub_date p \<le> now \<and> is_published p \<and> cat_is_published (category p)
              then [(p, comment_count d p)] else [])"
    using assms by (simp add: post_published_query_by_pk)
  show ?thesis
  proof (cases "user_eq (author p) (req_user request)")
    case True
    then show ?thesis
      unfolding PostDetailView_get_def PostDetailView_get_queryset_def g a
      by (simp add: with_comment_count_def assms(3))
  next
    case False
    then show ?thesis
      unfolding PostDetailView_get_def PostDetailView_get_queryset_def g b
      by (simp add: with_comment_count_def assms(3))
  qed
qed

subsection \<open>Detail page and comment creation\<close>

text \<open>
  Claim C2. For a stored post and any viewer, anonymous or not, the detail view returns
  the page of the post if and only if the viewer is the author of the post or the post
  meets the three criteria of \<^verbatim>\<open>post_published_query\<close>; in every other case it fails
  with \<^verbatim>\<open>Http404\<close>. The view is the \<^verbatim>\<open>get\<close> handler of the route, with one reading
  of the clock for the request.
\<close>

theorem post_detail_author_or_published:
  assumes "p \<in> set (posts d)" and "distinct (map post_pk (posts d))"
    and "post_id kw = post_pk p"
  shows "((\<exists>ctx. PostDetailView_get d now request kw = Inr (Render ctx)
             \<and> detail_object ctx = (p, comment_count d p))
          \<longleftrightarrow> user_eq (author p) (req_user request)
               \<or> (is_published p \<and> pub_date p \<le> now \<and> cat_is_published (category p)))
       \<and> (\<not> (user_eq (author p) (req_user request)
               \<or> (is_published p \<and> pub_date p \<le> now \<and> cat_is_published (category p)))
            \<longrightarrow> PostDetailView_get d now request kw = Inl Http404)"
  using assms
  by (simp add: PostDetailView_get_by_pk PostDetailView_get_context_data_def)

text \<open>
  The draft of alice on the example database: alice gets its page, bob and an anonymous
  viewer get \<^verbatim>\<open>Http404\<close>; the published post is shown to the anonymous viewer.
\<close>

theorem post_detail_author_or_published_witness:
  "(\<exists>ctx. PostDetailView_get blog_db 500
            (a_request (LoggedIn alice) GET NoPage (None :: unit option)) (a_kwargs 2)
          = Inr (Render ctx) \<and> detail_object ctx = (draft_post, 0))
   \<and> PostDetailView_get blog_db 500
        (a_request (LoggedIn bob) GET NoPage (None :: unit option)) (a_kwargs 2) = Inl Http404
   \<and> PostDetailView_get blog_db 500
        (a_request AnonymousUser GET NoPage (None :: unit option)) (a_kwargs 2) = Inl Http404
   \<and> (\<exists>ctx. PostDetailView_get blog_db 500
            (a_request AnonymousUser GET NoPage (None :: unit option)) (a_kwargs 1)
          = Inr (Render ctx) \<and> detail_object ctx = (hello_post, 1))"
  using
    post_detail_author_or_published [of draft_post blog_db "a_kwargs 2" 500
      "a_request (LoggedIn alice) GET NoPage (None :: unit option)"]
    post_detail_author_or_published [of draft_post blog_db "a_kwargs 2" 500
      "a_request (LoggedIn bob) GET NoPage (None :: unit option)"]
    post_detail_author_or_published [of draft_post blog_db "a_kwargs 2" 500
      "a_request AnonymousUser GET NoPage (None :: unit option)"]
    post_detail_author_or_published [of hello_post blog_db "a_kwargs 1" 500
      "a_request AnonymousUser GET NoPage (None :: unit option)"]
  by (simp add: blog_db_def hello_post_def draft_post_def nice_comment_def news_def alice_def
      bob_def a_request_def a_kwargs_def comment_count_def)

text \<open>
  Claim C3. For a stored post that misses one of the three criteria, comment creation
  fails with \<^verbatim>\<open>Http404\<close> for every viewer, the author of the post included, whatever the
  method and the form; the stored state and the log of effects are left as they were, so
  no comment is created.
\<close>

theorem comment_create_unpublished_not_found:
  assumes "p \<in> set (posts (fst s))" and "distinct (map post_pk (posts (fst s)))"
    and "post_id kw = post_pk p"
    and "\<not> (is_published p \<and> pub_date p \<le> now \<and> cat_is_published (category p))"
  shows "CommentCreateView_dispatch write_ok now request kw s = (Inl Http404, s)"
proof -
  have "get_post_data (fst s) now kw = Inl Http404"
    using assms by (simp add: get_post_data_by_pk)
  then show ?thesis
    by (simp add: CommentCreateView_dispatch_def)
qed

text \<open>
  Neither alice, its author, nor bob can comment on the draft of alice.
\<close>

theorem comment_create_unpublished_not_found_witness:
  "CommentCreateView_dispatch True 500
     (a_request (LoggedIn alice) POST NoPage (Some ''mine'')) (a_kwargs 2) (blog_db, [])
   = (Inl Http404, blog_db, [])
   \<and> CommentCreateView_dispatch True 500
     (a_request (LoggedIn bob) POST NoPage (Some ''hi'')) (a_kwargs 2) (blog_db, [])
   = (Inl Http404, blog_db, [])"
  using
    comment_create_unpublished_not_found [of draft_post "(blog_db, [])" "a_kwargs 2" 500 True
      "a_request (LoggedIn alice) POST NoPage (Some ''mine'')"]
    comment_create_unpublished_not_found [of draft_post "(blog_db, [])" "a_kwargs 2" 500 True
      "a_request (LoggedIn bob) POST NoPage (Some ''hi'')"]
  by (simp add: blog_db_def hello_post_def draft_post_def a_kwargs_def)

text \<open>
  Claim C9. \<^verbatim>\<open>CommentCreateView.dispatch\<close> calls \<^verbatim>\<open>get_post_data\<close> before
  \<^verbatim>\<open>LoginRequiredMixin.dispatch\<close> runs: an anonymous viewer gets \<^verbatim>\<open>Http404\<close> on a post
  that misses one of the three criteria, and the redirect to the login page only on a
  post that meets them.
\<close>

theorem comment_create_anonymous_eligibility_before_login:
  assumes "p \<in> set (posts (fst s))" and "distinct (map post_pk (posts (fst s)))"
    and "post_id kw = post_pk p"
    and "req_user request = AnonymousUser"
  shows "CommentCreateView_dispatch write_ok now request kw s =
           (if is_published p \<and> pub_date p \<le> now \<and> cat_is_published (category p)
            then (Inr (Redirect Login), s) else (Inl Http404, s))"
proof -
  have "get_post_data (fst s) now kw =
          (if pub_date p \<le> now \<and> is_published p \<and> cat_is_published (category p)
           then Inr p else Inl Http404)"
    using assms by (simp add: get_post_data_by_pk)
  then show ?thesis
    using assms(4)
    by (auto simp add: CommentCreateView_dispatch_def CommentCreateView_super_dispatch_def
        LoginRequiredMixin_dispatch_def)
qed

text \<open>
  An anonymous request to comment on the draft is not found; on the published post it is
  redirected to the login page.
\<close>

theorem comment_create_anonymous_eligibility_before_login_witness:
  "CommentCreateView_dispatch True 500
     (a_request AnonymousUser POST NoPage (Some ''hi'')) (a_kwargs 2) (blog_db, [])
   = (Inl Http404, blog_db, [])
   \<and> CommentCreateView_dispatch True 500
     (a_request AnonymousUser POST NoPage (Some ''hi'')) (a_kwargs 1) (blog_db, [])
   = (Inr (Redirect Login), blog_db, [])"
  using
    comment_create_anonymous_eligibility_before_login [of draft_post "(blog_db, [])"
      "a_kwargs 2" "a_request AnonymousUser POST NoPage (Some ''hi'')" True 500]
    comment_create_anonymous_eligibility_before_login [of hello_post "(blog_db, [])"
      "a_kwargs 1" "a_request AnonymousUser POST NoPage (Some ''hi'')" True 500]
  by (simp add: blog_db_def hello_post_def draft_post_def news_def a_kwargs_def a_request_def)

subsection \<open>Update and delete guards\<close>

text \<open>
  Claim C4. An authenticated viewer who is not the author of a stored post gets, from the
  update route and from the delete route of that post, a redirect to the detail page of
  the post, and the tables are returned as they were, whatever the method and the form.
  The same holds for a stored comment on the comment update and delete routes, with the
  detail page of the comment's post; for comments the guard is the one modelled from the
  spec (\<^verbatim>\<open>CommentMixinView\<close>).
\<close>

theorem non_owner_update_delete_redirects:
  assumes "req_user r1 = LoggedIn v" and "req_user r2 = LoggedIn v"
    and "req_user r3 = LoggedIn v" and "req_user r4 = LoggedIn v"
  shows "(p \<in> set (posts d) \<and> distinct (map post_pk (posts d)) \<and> post_id kw = post_pk p
            \<and> user_pk (author p) \<noteq> user_pk v \<longrightarrow>
          PostUpdateView_dispatch write_ok r1 kw d = (Inr (Redirect (PostDetail (post_pk p))), d)
          \<and> PostDeleteView_dispatch write_ok r2 kw d
              = (Inr (Redirect (PostDetail (post_pk p))), d))
       \<and> (c \<in> set (comments d) \<and> distinct (map comment_pk (comments d))
            \<and> comment_id kw = comment_pk c \<and> user_pk (comment_author c) \<noteq> user_pk v \<longrightarrow>
          CommentUpdateView_dispatch write_ok r3 kw d
              = (Inr (Redirect (PostDetail (comment_post c))), d)
          \<and> CommentDeleteView_dispatch write_ok r4 kw d
              = (Inr (Redirect (PostDetail (comment_post c))), d))"
proof (intro conjI impI)
  assume a: "p \<in> set (posts d) \<and> distinct (map post_pk (posts d)) \<and> post_id kw = post_pk p
            \<and> user_pk (author p) \<noteq> user_pk v"
  then have g: "get_object_or_404 (filter (\<lambda>q. post_pk q = post_id kw) (posts d)) = Inr p"
    by (simp add: filter_pk_unique)
  show "PostUpdateView_dispatch write_ok r1 kw d = (Inr (Redirect (PostDetail (post_pk p))), d)"
    unfolding PostUpdateView_dispatch_def g using a assms(1) by simp
  show "PostDeleteView_dispatch write_ok r2 kw d = (Inr (Redirect (PostDetail (post_pk p))), d)"
    unfolding PostDeleteView_dispatch_def g using a assms(2) by simp
next
  assume a: "c \<in> set (comments d) \<and> distinct (map comment_pk (comments d))
            \<and> comment_id kw = comment_pk c \<and> user_pk (comment_author c) \<noteq> user_pk v"
  then have g: "get_object_or_404 (filter (\<lambda>x. comment_pk x = comment_id kw) (comments d))
                  = Inr c"
    by (simp add: filter_pk_unique)
  show "CommentUpdateView_dispatch write_ok r3 kw d
          = (Inr (Redirect (PostDetail (comment_post c))), d)"
    unfolding CommentUpdateView_dispatch_def CommentMixinView_dispatch_def g
    using a assms(3) by simp
  show "CommentDeleteView_dispatch write_ok r4 kw d
          = (Inr (Redirect (PostDetail (comment_post c))), d)"
    unfolding CommentDeleteView_dispatch_def CommentMixinView_dispatch_def g
    using a assms(4) by simp
qed

text \<open>
  On the example database bob cannot change or delete the post of alice, and alice cannot
  change or delete the comment of bob: each request is redirected to the detail page of
  post 1 and the database is unchanged.
\<close>

theorem non_owner_update_delete_redirects_witness:
  "PostUpdateView_dispatch True
     (a_request (LoggedIn bob) POST NoPage (True, \<lambda>p. p\<lparr>title := ''Taken over''\<rparr>))
     (a_kwargs 1) blog_db = (Inr (Redirect (PostDetail 1)), blog_db)
   \<and> PostDeleteView_dispatch True
     (a_request (LoggedIn bob) POST NoPage (None :: unit option))
     (a_kwargs 1) blog_db = (Inr (Redirect (PostDetail 1)), blog_db)
   \<and> CommentUpdateView_dispatch True
     (a_request (LoggedIn alice) POST NoPage (True, \<lambda>c. c\<lparr>comment_body := ''Edited''\<rparr>))
     (a_kwargs 1) blog_db = (Inr (Redirect (PostDetail 1)), blog_db)
   \<and> CommentDeleteView_dispatch True
     (a_request (LoggedIn alice) POST NoPage (None :: unit option))
     (a_kwargs 1) blog_db = (Inr (Redirect (PostDetail 1)), blog_db)"
  using
    non_owner_update_delete_redirects
      [of "a_request (LoggedIn bob) POST NoPage (True, \<lambda>p. p\<lparr>title := ''Taken over''\<rparr>)" bob
          "a_request (LoggedIn bob) POST NoPage (None :: unit option)"
          "a_request (LoggedIn bob) POST NoPage (True, \<lambda>c. c\<lparr>comment_body := ''Edited''\<rparr>)"
          "a_request (LoggedIn bob) POST NoPage (None :: unit option)"
          hello_post blog_db "a_kwargs 1" True nice_comment]
    non_owner_update_delete_redirects
      [of "a_request (LoggedIn alice) POST NoPage (True, \<lambda>p. p\<lparr>title := ''Taken over''\<rparr>)"
          alice
          "a_request (LoggedIn alice) POST NoPage (None :: unit option)"
          "a_request (LoggedIn alice) POST NoPage (True, \<lambda>c. c\<lparr>comment_body := ''Edited''\<rparr>)"
          "a_request (LoggedIn alice) POST NoPage (None :: unit option)"
          hello_post blog_db "a_kwargs 1" True nice_comment]
  by (simp add: blog_db_def hello_post_def draft_post_def nice_comment_def alice_def bob_def
      a_kwargs_def a_request_def)

text \<open>
  Claim C5 does not hold on the code. \<^verbatim>\<open>PostUpdateView.dispatch\<close> and
  \<^verbatim>\<open>PostDeleteView.dispatch\<close> compare the author with \<^verbatim>\<open>request.user\<close> and return before
  \<^verbatim>\<open>LoginRequiredMixin.dispatch\<close> is reached. An anonymous viewer is never the author, so
  on an existing post the answer is the redirect to the detail page, not to the login
  page; the login check of the mixin these views inherit cannot fire. The sibling
  \<^verbatim>\<open>PostCreateView\<close>, which has no such guard, does send the anonymous viewer to the login
  page.
\<close>

theorem anonymous_post_update_delete_goes_to_detail:
  "PostUpdateView_dispatch True
     (a_request AnonymousUser GET NoPage (False, \<lambda>p :: post. p)) (a_kwargs 1) blog_db
     = (Inr (Redirect (PostDetail 1)), blog_db)
   \<and> PostDeleteView_dispatch True
     (a_request AnonymousUser POST NoPage (None :: unit option)) (a_kwargs 1) blog_db
     = (Inr (Redirect (PostDetail 1)), blog_db)
   \<and> PostCreateView_dispatch True
     (a_request AnonymousUser GET NoPage (None :: post option)) blog_db
     = (Inr (Redirect Login), blog_db)"
  by (simp add: PostUpdateView_dispatch_def PostDeleteView_dispatch_def
      PostCreateView_dispatch_def LoginRequiredMixin_dispatch_def blog_db_def hello_post_def
      draft_post_def a_kwargs_def a_request_def)

subsection \<open>Notification on comment creation\<close>

lemma outbox_append: "outbox (xs @ ys) = outbox xs @ outbox ys"
  by (induction xs rule: outbox.induct) simp_all

lemma send_author_email_blank:
  "email (author p) = [] \<Longrightarrow> send_author_email request kw p log = log"
  by (simp add: send_author_email_def send_mail_def Let_def)

lemma send_author_email_nonblank:
  assumes "email (author p) \<noteq> []"
  shows "\<exists>m. send_author_email request kw p log = log @ [MailSent m]
           \<and> recipient_list m = [email (author p)]
           \<and> subject m = ''New comment''
           \<and> (\<exists>pre suf. message m = pre @ title p @ suf)"
proof -
  let ?pre = "msg_user @ str_user (req_user request) @ msg_added @ msg_comment_to_post"
  let ?suf = "[CHR ''.'', CHR 0x0A] @ msg_read_comment
              @ build_absolute_uri request (CommentCreateView_get_success_url kw)"
  let ?m = "\<lparr>subject = ''New comment'', message = ?pre @ title p @ ?suf,
             from_email = ''from@example.com'', recipient_list = [email (author p)]\<rparr>"
  have "send_author_email request kw p log = log @ [MailSent ?m]"
    using assms by (simp add: send_author_email_def send_mail_def Let_def)
  moreover have "\<exists>pre suf. message ?m = pre @ title p @ suf"
    by (simp only: mail.simps) blast
  ultimately show ?thesis
    by (intro exI [of _ ?m]) simp
qed

lemma CommentCreateView_dispatch_valid_post:
  assumes "req_user request = LoggedIn u" and "req_method request = POST"
    and "req_form request = Some body"
    and "p \<in> set (posts d)" and "distinct (map post_pk (posts d))"
    and "post_id kw = post_pk p"
    and "is_published p" and "pub_date p \<le> now" and "cat_is_published (category p)"
  shows "CommentCreateView_dispatch write_ok now request kw (d, log) =
           CommentCreateView_form_valid write_ok request kw p body (d, log)"
proof -
  have "get_post_data d now kw = Inr p"
    using assms by (simp add: get_post_data_by_pk)
  then show ?thesis
    using assms(1-3)
    by (simp add: CommentCreateView_dispatch_def CommentCreateView_super_dispatch_def
        LoginRequiredMixin_dispatch_def)
qed

lemma CommentCreateView_form_valid_saved:
  assumes "req_user request = LoggedIn u" and "post_id kw = post_pk p"
  shows "CommentCreateView_form_valid True request kw p body (d, log) =
           (Inr (Redirect (PostDetail (post_pk p))),
            d\<lparr>comments := comments d @
                 [\<lparr>comment_pk = Suc (comment_pk_seq d), comment_author = u,
                   comment_post = post_pk p, comment_body = body\<rparr>],
               comment_pk_seq := Suc (comment_pk_seq d)\<rparr>,
            (if user_pk (author p) \<noteq> user_pk u then send_author_email request kw p log
             else log)
            @ [CommentSaved \<lparr>comment_pk = Suc (comment_pk_seq d), comment_author = u,
                             comment_post = post_pk p, comment_body = body\<rparr>])"
  using assms
  by (simp add: CommentCreateView_form_valid_def Model_save_comment_def Let_def
      CommentCreateView_get_success_url_def)

lemma CommentCreateView_form_valid_failed:
  assumes "req_user request = LoggedIn u"
  shows "CommentCreateView_form_valid False request kw p body (d, log) =
           (Inl DatabaseError, d,
            if user_pk (author p) \<noteq> user_pk u then send_author_email request kw p log
            else log)"
  using assms
  by (simp add: CommentCreateView_form_valid_def Model_save_comment_def Let_def)

text \<open>
  Claim C7, as the code has it. A comment creation that succeeds (an authenticated user
  posts a valid form on a stored post that meets the three criteria, and the storage
  accepts the write) stores one new comment row of that user on that post and redirects
  to the detail page. If the user is not the author of the post and the author's email
  address is not empty, exactly one message is added to the outbox; it is addressed to
  the email of the post's author and its text contains the post's title. If the user is
  the author, or the author's email address is empty, the outbox is as it was.
\<close>

theorem comment_create_notifies_author_with_email:
  assumes "req_user request = LoggedIn u" and "req_method request = POST"
    and "req_form request = Some body"
    and "p \<in> set (posts d)" and "distinct (map post_pk (posts d))"
    and "post_id kw = post_pk p"
    and "is_published p" and "pub_date p \<le> now" and "cat_is_published (category p)"
  shows "\<exists>d' log' c.
           CommentCreateView_dispatch True now request kw (d, log)
             = (Inr (Redirect (PostDetail (post_pk p))), d', log')
         \<and> comments d' = comments d @ [c]
         \<and> comment_author c = u \<and> comment_post c = post_pk p \<and> comment_body c = body
         \<and> (user_pk u \<noteq> user_pk (author p) \<and> email (author p) \<noteq> [] \<longrightarrow>
              (\<exists>m. outbox log' = outbox log @ [m] \<and> recipient_list m = [email (author p)]
                   \<and> (\<exists>pre suf. message m = pre @ title p @ suf)))
         \<and> (user_pk u = user_pk (author p) \<or> email (author p) = [] \<longrightarrow>
              outbox log' = outbox log)"
proof -
  let ?c = "\<lparr>comment_pk = Suc (comment_pk_seq d), comment_author = u,
              comment_post = post_pk p, comment_body = body\<rparr>"
  let ?n = "if user_pk (author p) \<noteq> user_pk u then send_author_email request kw p log
            else log"
  have d: "CommentCreateView_dispatch True now request kw (d, log) =
             (Inr (Redirect (PostDetail (post_pk p))),
              d\<lparr>comments := comments d @ [?c], comment_pk_seq := Suc (comment_pk_seq d)\<rparr>,
              ?n @ [CommentSaved ?c])"
    using assms
    by (simp only: CommentCreateView_dispatch_valid_post CommentCreateView_form_valid_saved)
  have one: "\<exists>m. outbox (?n @ [CommentSaved ?c]) = outbox log @ [m]
               \<and> recipient_list m = [email (author p)]
               \<and> (\<exists>pre suf. message m = pre @ title p @ suf)"
    if a: "user_pk u \<noteq> user_pk (author p)" and b: "email (author p) \<noteq> []"
  proof -
    obtain m where "send_author_email request kw p log = log @ [MailSent m]"
      "recipient_list m = [email (author p)]" "\<exists>pre suf. message m = pre @ title p @ suf"
      using send_author_email_nonblank [OF b, of request kw log] by blast
    with a show ?thesis
      by (auto simp add: outbox_append)
  qed
  have none: "outbox (?n @ [CommentSaved ?c]) = outbox log"
    if "user_pk u = user_pk (author p) \<or> email (author p) = []"
    using that by (auto simp add: outbox_append send_author_email_blank)
  show ?thesis
    unfolding d using one none
    by (intro exI [of _ "d\<lparr>comments := comments d @ [?c],
                            comment_pk_seq := Suc (comment_pk_seq d)\<rparr>"]
              exI [of _ "?n @ [CommentSaved ?c]"] exI [of _ ?c]) simp
qed

text \<open>
  Bob's comment on the post of alice sends one message to alice; alice's own comment on it
  sends none.
\<close>

theorem comment_create_notifies_author_with_email_witness:
  "fst (CommentCreateView_dispatch True 500
          (a_request (LoggedIn bob) POST NoPage (Some ''hi'')) (a_kwargs 1) (blog_db, []))
     = Inr (Redirect (PostDetail 1))
   \<and> map recipient_list (outbox (snd (snd (CommentCreateView_dispatch True 500
          (a_request (LoggedIn bob) POST NoPage (Some ''hi'')) (a_kwargs 1) (blog_db, [])))))
     = [[''alice@example.com'']]
   \<and> outbox (snd (snd (CommentCreateView_dispatch True 500
          (a_request (LoggedIn alice) POST NoPage (Some ''me'')) (a_kwargs 1) (blog_db, []))))
     = []"
  using
    comment_create_notifies_author_with_email
      [of "a_request (LoggedIn bob) POST NoPage (Some ''hi'')" bob "''hi''" hello_post blog_db
          "a_kwargs 1" 500 "[]"]
    comment_create_notifies_author_with_email
      [of "a_request (LoggedIn alice) POST NoPage (Some ''me'')" alice "''me''" hello_post
          blog_db "a_kwargs 1" 500 "[]"]
  by (auto simp add: blog_db_def hello_post_def draft_post_def news_def alice_def bob_def
      a_kwargs_def a_request_def)

text \<open>
  The claim as stated promises one notification whenever the commenter is not the author.
  Carol has no email address: bob's comment on her post is stored and no message is
  handed to the mail backend, since the only recipient \<^verbatim>\<open>send_mail\<close> is given is the
  empty string.
\<close>

theorem comment_on_post_of_author_without_email_sends_nothing:
  "user_pk bob \<noteq> user_pk (author carol_post)
   \<and> CommentCreateView_dispatch True 500
         (a_request (LoggedIn bob) POST NoPage (Some ''hi'')) (a_kwargs 3) (carol_db, [])
       = (Inr (Redirect (PostDetail 3)),
          carol_db\<lparr>comments := [\<lparr>comment_pk = 2, comment_author = bob, comment_post = 3,
                                   comment_body = ''hi''\<rparr>],
                   comment_pk_seq := 2\<rparr>,
          [CommentSaved \<lparr>comment_pk = 2, comment_author = bob, comment_post = 3,
                         comment_body = ''hi''\<rparr>])
   \<and> outbox [CommentSaved \<lparr>comment_pk = 2, comment_author = bob, comment_post = 3,
                              comment_body = ''hi''\<rparr>] = []"
  by (simp add: CommentCreateView_dispatch_def CommentCreateView_super_dispatch_def
      LoginRequiredMixin_dispatch_def CommentCreateView_form_valid_def get_post_data_def
      Model_save_comment_def send_author_email_def send_mail_def
      CommentCreateView_get_success_url_def Let_def
      carol_db_def carol_post_def carol_def bob_def news_def a_kwargs_def a_request_def)

text \<open>
  Claim C10, as the code has it. When the commenter is not the author of the post and the
  author's email address is not empty, the effects of the request are, in this order, the
  notification handed to the mail backend and then the comment row written: in
  \<^verbatim>\<open>form_valid\<close> the send comes before the save. When the storage rejects the write,
  the request ends in the error with the stored state unchanged, and the log holds that
  same notification.
\<close>

theorem comment_create_notification_precedes_save:
  assumes "req_user request = LoggedIn u" and "req_method request = POST"
    and "req_form request = Some body"
    and "p \<in> set (posts d)" and "distinct (map post_pk (posts d))"
    and "post_id kw = post_pk p"
    and "is_published p" and "pub_date p \<le> now" and "cat_is_published (category p)"
    and "user_pk u \<noteq> user_pk (author p)" and "email (author p) \<noteq> []"
  shows "\<exists>m c d'.
           CommentCreateView_dispatch True now request kw (d, log)
             = (Inr (Redirect (PostDetail (post_pk p))), d', log @ [MailSent m, CommentSaved c])
         \<and> CommentCreateView_dispatch False now request kw (d, log)
             = (Inl DatabaseError, d, log @ [MailSent m])
         \<and> recipient_list m = [email (author p)]
         \<and> (\<exists>pre suf. message m = pre @ title p @ suf)
         \<and> comments d' = comments d @ [c]
         \<and> comment_author c = u \<and> comment_post c = post_pk p \<and> comment_body c = body"
proof -
  let ?c = "\<lparr>comment_pk = Suc (comment_pk_seq d), comment_author = u,
              comment_post = post_pk p, comment_body = body\<rparr>"
  let ?d = "d\<lparr>comments := comments d @ [?c], comment_pk_seq := Suc (comment_pk_seq d)\<rparr>"
  obtain m where m: "send_author_email request kw p log = log @ [MailSent m]"
    "recipient_list m = [email (author p)]" "\<exists>pre suf. message m = pre @ title p @ suf"
    using send_author_email_nonblank [OF assms(11), of request kw log] by blast
  have t: "CommentCreateView_dispatch True now request kw (d, log) =
             (Inr (Redirect (PostDetail (post_pk p))), ?d, log @ [MailSent m, CommentSaved ?c])"
    using assms(1-9) assms(10) [symmetric] m(1)
    by (simp add: CommentCreateView_dispatch_valid_post CommentCreateView_form_valid_saved)
  have f: "CommentCreateView_dispatch False now request kw (d, log) =
             (Inl DatabaseError, d, log @ [MailSent m])"
    using assms(1-9) assms(10) [symmetric] m(1)
    by (simp add: CommentCreateView_dispatch_valid_post CommentCreateView_form_valid_failed)
  show ?thesis
    unfolding t f using m(2,3)
    by (intro exI [of _ m] exI [of _ ?c] exI [of _ ?d]) simp
qed

text \<open>
  Bob's comment on the post of alice: first the message to alice, then the row; with a
  failing write the error, the database as it was, and the message to alice.
\<close>

theorem comment_create_notification_precedes_save_witness:
  "\<exists>m c. snd (snd (CommentCreateView_dispatch True 500
          (a_request (LoggedIn bob) POST NoPage (Some ''hi'')) (a_kwargs 1) (blog_db, [])))
        = [MailSent m, CommentSaved c]
      \<and> CommentCreateView_dispatch False 500
          (a_request (LoggedIn bob) POST NoPage (Some ''hi'')) (a_kwargs 1) (blog_db, [])
        = (Inl DatabaseError, blog_db, [MailSent m])
      \<and> recipient_list m = [''alice@example.com'']
      \<and> comment_author c = bob \<and> comment_post c = 1 \<and> comment_body c = ''hi''"
  using
    comment_create_notification_precedes_save
      [of "a_request (LoggedIn bob) POST NoPage (Some ''hi'')" bob "''hi''" hello_post blog_db
          "a_kwargs 1" 500 "[]"]
  by (auto simp add: blog_db_def hello_post_def draft_post_def news_def alice_def bob_def
      a_kwargs_def a_request_def)

text \<open>
  The claim as stated has the notification emitted even if the save fails, for every
  commenter other than the author. Carol has no email address: when bob comments on her
  post and the write fails, the log stays empty; no notification is emitted.
\<close>

theorem failed_save_without_author_email_emits_nothing:
  "user_pk bob \<noteq> user_pk (author carol_post)
   \<and> CommentCreateView_dispatch False 500
         (a_request (LoggedIn bob) POST NoPage (Some ''hi'')) (a_kwargs 3) (carol_db, [])
       = (Inl DatabaseError, carol_db, [])"
  by (simp add: CommentCreateView_dispatch_def CommentCreateView_super_dispatch_def
      LoginRequiredMixin_dispatch_def CommentCreateView_form_valid_def get_post_data_def
      Model_save_comment_def send_author_email_def send_mail_def Let_def
      carol_db_def carol_post_def carol_def bob_def news_def a_kwargs_def a_request_def)

subsection \<open>Profile count\<close>

lemma get_paginated_page_total: "\<exists>pg. get_paginated_page queryset request 10 = Inr pg"
  by (simp add: get_paginated_page_def get_page_10 Let_def)

lemma length_filter_post_all_query:
  "length (filter (\<lambda>(p, n). Q p) (post_all_query d)) = length (filter Q (posts d))"
  by (simp add: filter_post_all_query)

lemma length_filter_post_published_query:
  "length (filter (\<lambda>(p, n). Q p) (post_published_query d now)) =
     length (filter (\<lambda>p. Q p \<and> pub_date p \<le> now \<and> is_published p
                          \<and> cat_is_published (category p)) (posts d))"
proof -
  have "filter (\<lambda>(p, n). Q p) (post_published_query d now) =
          filter (\<lambda>(p, n). Q p \<and> pub_date p \<le> now \<and> is_published p
                             \<and> cat_is_published (category p)) (post_all_query d)"
    unfolding post_published_query_def filter_filter
    by (rule filter_cong) auto
  then show ?thesis
    using length_filter_post_all_query
      [of "\<lambda>p. Q p \<and> pub_date p \<le> now \<and> is_published p \<and> cat_is_published (category p)" d]
    by simp
qed

text \<open>
  Claim C8. On the profile page of a stored user the total-post count is, for the profile
  owner as viewer, the number of posts of \<^verbatim>\<open>post_all_query()\<close> filtered to that author,
  which is the number of stored posts of the author; for any other viewer, anonymous
  ones included, it is the number of posts of \<^verbatim>\<open>post_published_query()\<close> filtered to
  that author, the stored posts of the author that meet the three criteria. User names
  are unique.
\<close>

theorem profile_total_posts:
  assumes "a \<in> set (users d)" and "distinct (map username (users d))"
    and "kw_username kw = username a"
  shows "\<exists>ctx. UserPostsListView_get d now request kw = Inr (Render ctx)
           \<and> profile ctx = a
           \<and> (user_eq a (req_user request) \<longrightarrow>
                total_posts ctx =
                  length (filter (\<lambda>(p, n). user_pk (author p) = user_pk a) (post_all_query d))
              \<and> total_posts ctx =
                  length (filter (\<lambda>p. user_pk (author p) = user_pk a) (posts d)))
           \<and> (\<not> user_eq a (req_user request) \<longrightarrow>
                total_posts ctx =
                  length (filter (\<lambda>(p, n). user_pk (author p) = user_pk a)
                            (post_published_query d now))
              \<and> total_posts ctx =
                  length (filter (\<lambda>p. user_pk (author p) = user_pk a \<and> pub_date p \<le> now
                                       \<and> is_published p \<and> cat_is_published (category p))
                            (posts d)))"
proof -
  have g: "get_object_or_404 (filter (\<lambda>u. username u = kw_username kw) (users d)) = Inr a"
    using assms by (simp add: filter_pk_unique)
  obtain qs where q: "UserPostsListView_get_queryset d now request kw = Inr (a, qs)"
    by (simp add: UserPostsListView_get_queryset_def g Let_def)
  obtain pg where pg: "get_paginated_page qs request 10 = Inr pg"
    using get_paginated_page_total by blast
  have c: "UserPostsListView_get_context_data d now request kw =
             Inr \<lparr>profile = a, page_obj = pg,
                  total_posts =
                    (if user_eq a (req_user request)
                     then length (filter (\<lambda>(p, n). user_pk (author p) = user_pk a)
                                    (post_all_query d))
                     else length (filter (\<lambda>(p, n). user_pk (author p) = user_pk a)
                                    (post_published_query d now)))\<rparr>"
    by (simp add: UserPostsListView_get_context_data_def MainPostListView_get_context_data_def
        q pg)
  show ?thesis
    unfolding UserPostsListView_get_def q c
    by (simp add: length_filter_post_all_query length_filter_post_published_query)
qed

text \<open>
  Alice has two posts, one of them a draft: she sees a count of 2, bob and an anonymous
  viewer see 1.
\<close>

theorem profile_total_posts_witness:
  "(\<exists>ctx. UserPostsListView_get blog_db 500
            (a_request (LoggedIn alice) GET NoPage (None :: unit option)) (a_kwargs 1)
          = Inr (Render ctx) \<and> profile ctx = alice \<and> total_posts ctx = 2)
   \<and> (\<exists>ctx. UserPostsListView_get blog_db 500
            (a_request (LoggedIn bob) GET NoPage (None :: unit option)) (a_kwargs 1)
          = Inr (Render ctx) \<and> profile ctx = alice \<and> total_posts ctx = 1)
   \<and> (\<exists>ctx. UserPostsListView_get blog_db 500
            (a_request AnonymousUser GET NoPage (None :: unit option)) (a_kwargs 1)
          = Inr (Render ctx) \<and> profile ctx = alice \<and> total_posts ctx = 1)"
  using
    profile_total_posts [of alice blog_db "a_kwargs 1" 500
      "a_request (LoggedIn alice) GET NoPage (None :: unit option)"]
    profile_total_posts [of alice blog_db "a_kwargs 1" 500
      "a_request (LoggedIn bob) GET NoPage (None :: unit option)"]
    profile_total_posts [of alice blog_db "a_kwargs 1" 500
      "a_request AnonymousUser GET NoPage (None :: unit option)"]
  by (auto simp add: blog_db_def hello_post_def draft_post_def news_def alice_def bob_def
      a_kwargs_def a_request_def)

end
